theory Spec2Isabelle
  imports Main "HOL-Library.Sublist"
begin

section \<open>The Go test subsystem of Pants: \<open>pants/backend/go/subsystems/gotest.py\<close>\<close>

text \<open>
  The module declares the options of the \<open>go-test\<close> scope and one method,
  \<open>coverage_output_dir\<close>, which escapes an import path with \<open>str.replace\<close>, expands the
  option \<open>_coverage_output_dir\<close> with \<open>str.format\<close> and wraps the result in a \<open>PurePath\<close>.
  The three library operations are embedded below as CPython (64 bit, POSIX flavour of
  \<open>pathlib\<close>) computes them; a Python \<open>str\<close> is a \<open>string\<close>.
\<close>

subsection \<open>Exceptions\<close>

text \<open>The messages of the \<open>ValueError\<close>s that \<open>str.format\<close> raises while it reads a template.\<close>

datatype value_error =
    Single_rbrace           \<comment> \<open>Single \<open>}\<close> encountered in format string\<close>
  | Single_lbrace           \<comment> \<open>Single \<open>{\<close> encountered in format string\<close>
  | Lbrace_in_field_name    \<comment> \<open>unexpected \<open>{\<close> in field name\<close>
  | Expected_rbrace         \<comment> \<open>expected \<open>}\<close> before end of string\<close>
  | End_in_conversion       \<comment> \<open>end of string while looking for conversion specifier\<close>
  | Expected_colon          \<comment> \<open>expected \<open>:\<close> after conversion specifier\<close>
  | Unmatched_lbrace        \<comment> \<open>unmatched \<open>{\<close> in format spec\<close>
  | Too_many_digits         \<comment> \<open>Too many decimal digits in format string\<close>
  | Unknown_conversion char \<comment> \<open>Unknown conversion specifier\<close>
  | Max_recursion           \<comment> \<open>Max string recursion exceeded\<close>

text \<open>
  \<open>KeyError\<close> carries the missing keyword, \<open>IndexError\<close> the replacement index that is out
  of range for the (empty) tuple of positional arguments. \<open>Unmodelled\<close> is not a Python
  exception: it marks a replacement field whose rendering depends on parts of Python that
  this embedding leaves out (attribute or index access on the value, the conversions
  \<open>!r\<close> and \<open>!a\<close>, a format spec that is not empty once expanded). What Python does from
  there on is not described, and no statement below draws on it.
\<close>

datatype error =
    KeyError string
  | IndexError int
  | ValueError value_error
  | Unmodelled

subsection \<open>\<open>str.replace\<close>\<close>

text \<open>
  \<open>s.replace(old, new)\<close>: every occurrence of \<open>old\<close> becomes \<open>new\<close>, found from the left
  and without overlap; an empty \<open>old\<close> matches before every character and at the end.
\<close>

function str_replace :: "string \<Rightarrow> string \<Rightarrow> string \<Rightarrow> string" where
  "str_replace old new [] = (if old = [] then new else [])"
| "str_replace old new (c # cs) =
     (if old = [] then new @ c # str_replace old new cs
      else if take (length old) (c # cs) = old
        then new @ str_replace old new (drop (length old) (c # cs))
      else c # str_replace old new cs)"
  by pat_completeness auto
termination
  by (relation "measure (\<lambda>(old, new, s). length s)") auto

subsection \<open>\<open>str.format\<close> with keyword arguments only\<close>

definition PY_SSIZE_T_MAX :: int where
  "PY_SSIZE_T_MAX = 9223372036854775807"

definition digit_val :: "char \<Rightarrow> int option" where
  "digit_val c =
     (let n = (of_char c :: int) in if 48 \<le> n \<and> n \<le> 57 then Some (n - 48) else None)"

text \<open>
  \<open>get_integer\<close>: the decimal value of a string of digits; \<open>None\<close> (the C code's \<open>-1\<close>
  without an exception) for the empty string and for a string with another character;
  \<open>ValueError\<close> as soon as the value no longer fits \<open>Py_ssize_t\<close>.
\<close>

fun get_integer_from :: "int \<Rightarrow> string \<Rightarrow> error + int option" where
  "get_integer_from accumulator [] = Inr (Some accumulator)"
| "get_integer_from accumulator (c # cs) =
     (case digit_val c of
        None \<Rightarrow> Inr None
      | Some digitval \<Rightarrow>
          if accumulator > (PY_SSIZE_T_MAX - digitval) div 10
          then Inl (ValueError Too_many_digits)
          else get_integer_from (accumulator * 10 + digitval) cs)"

definition get_integer :: "string \<Rightarrow> error + int option" where
  "get_integer s = (if s = [] then Inr None else get_integer_from 0 s)"

text \<open>
  \<open>field_name_split\<close>: the part of a field name before the first \<open>.\<close> or \<open>[\<close>, and the
  accessors that follow it.
\<close>

definition field_name_split :: "string \<Rightarrow> string \<times> string" where
  "field_name_split field_name =
     (takeWhile (\<lambda>c. c \<noteq> CHR ''.'' \<and> c \<noteq> CHR ''['') field_name,
      dropWhile (\<lambda>c. c \<noteq> CHR ''.'' \<and> c \<noteq> CHR ''['') field_name)"

text \<open>
  \<open>get_field_object\<close>: an empty or numeric first part indexes the positional arguments, of
  which \<open>coverage_output_dir\<close> passes none; any other first part is looked up among the
  keyword arguments. Both values passed here are strings, and what \<open>.attr\<close> or \<open>[index]\<close>
  gives on them is not modelled.
\<close>

definition get_field_object :: "(string \<times> string) list \<Rightarrow> string \<Rightarrow> error + string" where
  "get_field_object kwargs field_name =
     (let (first, rest) = field_name_split field_name in
      case get_integer first of
        Inl e \<Rightarrow> Inl e
      | Inr (Some index) \<Rightarrow> Inl (IndexError index)
      | Inr None \<Rightarrow>
          if first = [] then Inl (IndexError 0)
          else (case map_of kwargs first of
                  None \<Rightarrow> Inl (KeyError first)
                | Some obj \<Rightarrow> if rest = [] then Inr obj else Inl Unmodelled))"

text \<open>
  The conversion step of \<open>output_markup\<close> with \<open>do_conversion\<close>: \<open>!s\<close> is \<open>str()\<close>, the
  identity on a string. The C code keeps the conversion as a character, with the NUL
  character for a field that has none, and converts only if the character is not NUL: a
  NUL character written after \<open>!\<close> is no conversion either.
\<close>

definition do_conversion :: "char option \<Rightarrow> string \<Rightarrow> error + string" where
  "do_conversion conversion obj =
     (case conversion of
        None \<Rightarrow> Inr obj
      | Some c \<Rightarrow>
          if c = CHR 0x00 then Inr obj
          else if c = CHR ''s'' then Inr obj
          else if c = CHR ''r'' \<or> c = CHR ''a'' then Inl Unmodelled
          else Inl (ValueError (Unknown_conversion c)))"

text \<open>\<open>render_field\<close>: with an empty format spec the value is written as it is.\<close>

definition render_field :: "string \<Rightarrow> string \<Rightarrow> error + string" where
  "render_field obj format_spec = (if format_spec = [] then Inr obj else Inl Unmodelled)"

text \<open>
  The first loop of \<open>parse_field\<close>: read the field name up to \<open>}\<close>, \<open>:\<close> or \<open>!\<close>. After a
  \<open>[\<close> everything up to the next \<open>]\<close> belongs to the name. The result is the name, the
  character that ended it and the text after that character.
\<close>

function scan_field_name :: "string \<Rightarrow> error + (string \<times> char \<times> string)" where
  "scan_field_name [] = Inl (ValueError Expected_rbrace)"
| "scan_field_name (c # cs) =
     (if c = CHR ''{'' then Inl (ValueError Lbrace_in_field_name)
      else if c = CHR ''['' then
        (case scan_field_name (dropWhile (\<lambda>x. x \<noteq> CHR '']'') cs) of
           Inl e \<Rightarrow> Inl e
         | Inr (name, c', rest) \<Rightarrow>
             Inr (c # takeWhile (\<lambda>x. x \<noteq> CHR '']'') cs @ name, c', rest))
      else if c = CHR ''}'' \<or> c = CHR '':'' \<or> c = CHR ''!'' then Inr ([], c, cs)
      else (case scan_field_name cs of
              Inl e \<Rightarrow> Inl e
            | Inr (name, c', rest) \<Rightarrow> Inr (c # name, c', rest)))"
  by pat_completeness auto
termination
  by (relation "measure length") (auto simp: less_Suc_eq_le length_dropWhile_le)

text \<open>
  The last loop of \<open>parse_field\<close>: read the format spec up to the \<open>}\<close> that closes the
  field, counting nested braces. The result is the spec, whether it holds a \<open>{\<close> (it then
  needs expanding) and the text after the closing \<open>}\<close>.
\<close>

fun scan_format_spec :: "nat \<Rightarrow> string \<Rightarrow> error + (string \<times> bool \<times> string)" where
  "scan_format_spec count [] = Inl (ValueError Unmatched_lbrace)"
| "scan_format_spec count (c # cs) =
     (if c = CHR ''{'' then
        (case scan_format_spec (count + 1) cs of
           Inl e \<Rightarrow> Inl e
         | Inr (spec, expand, rest) \<Rightarrow> Inr (c # spec, True, rest))
      else if c = CHR ''}'' then
        (if count - 1 = 0 then Inr ([], False, cs)
         else (case scan_format_spec (count - 1) cs of
                 Inl e \<Rightarrow> Inl e
               | Inr (spec, expand, rest) \<Rightarrow> Inr (c # spec, expand, rest)))
      else (case scan_format_spec count cs of
              Inl e \<Rightarrow> Inl e
            | Inr (spec, expand, rest) \<Rightarrow> Inr (c # spec, expand, rest)))"

text \<open>
  A parsed replacement field: its name, conversion character, format spec, and whether the
  format spec needs expanding.
\<close>

type_synonym field = "string \<times> char option \<times> string \<times> bool"

text \<open>\<open>parse_field\<close>, called on the text that follows the opening \<open>{\<close>.\<close>

definition parse_field :: "string \<Rightarrow> error + (field \<times> string)" where
  "parse_field s =
     (case scan_field_name s of
        Inl e \<Rightarrow> Inl e
      | Inr (field_name, c, after) \<Rightarrow>
          if c = CHR ''}'' then Inr ((field_name, None, [], False), after)
          else if c = CHR ''!'' then
            (case after of
               [] \<Rightarrow> Inl (ValueError End_in_conversion)
             | conversion # after' \<Rightarrow>
                 (case after' of
                    [] \<Rightarrow> Inl (ValueError Unmatched_lbrace)
                  | c' # after'' \<Rightarrow>
                      if c' = CHR ''}'' then
                        Inr ((field_name, Some conversion, [], False), after'')
                      else if c' \<noteq> CHR '':'' then Inl (ValueError Expected_colon)
                      else (case scan_format_spec 1 after'' of
                              Inl e \<Rightarrow> Inl e
                            | Inr (spec, expand, rest) \<Rightarrow>
                                Inr ((field_name, Some conversion, spec, expand), rest))))
          else (case scan_format_spec 1 after of
                  Inl e \<Rightarrow> Inl e
                | Inr (spec, expand, rest) \<Rightarrow> Inr ((field_name, None, spec, expand), rest)))"

lemma scan_field_name_length:
  "scan_field_name s = Inr (name, c, rest) \<Longrightarrow> length name + length rest < length s"
proof (induction s arbitrary: name rule: scan_field_name.induct)
  case 1
  then show ?case by simp
next
  case (2 c cs)
  have tw: "length (takeWhile (\<lambda>x. x \<noteq> CHR '']'') cs) + length (dropWhile (\<lambda>x. x \<noteq> CHR '']'') cs)
              = length cs"
    by (metis length_append takeWhile_dropWhile_id)
  from "2.prems" "2.IH" tw show ?case
    by (auto split: if_splits sum.splits)
qed

lemma scan_format_spec_length:
  "scan_format_spec n s = Inr (spec, expand, rest) \<Longrightarrow> length spec + length rest < length s"
  by (induction n s arbitrary: spec expand rule: scan_format_spec.induct)
     (auto split: if_splits sum.splits)

lemma parse_field_length:
  assumes "parse_field s = Inr ((field_name, conversion, spec, expand), rest)"
  shows "length spec + length rest < length s"
proof -
  obtain name c after where n: "scan_field_name s = Inr (name, c, after)"
    using assms unfolding parse_field_def by (auto split: sum.splits)
  have la: "length after < length s"
    using scan_field_name_length [OF n] by simp
  show ?thesis
  proof (cases "c = CHR ''}''")
    case True
    with assms n la show ?thesis by (simp add: parse_field_def)
  next
    case False
    note nb = this
    show ?thesis
    proof (cases "c = CHR ''!''")
      case True
      with assms n nb la show ?thesis
        unfolding parse_field_def
        by (auto split: list.splits if_splits sum.splits dest!: scan_format_spec_length)
    next
      case False
      with assms n nb la show ?thesis
        unfolding parse_field_def
        by (auto split: sum.splits dest!: scan_format_spec_length)
    qed
  qed
qed

text \<open>
  \<open>do_markup\<close> with \<open>MarkupIterator_next\<close> and \<open>output_markup\<close>: literal text is copied,
  \<open>{{\<close> and \<open>}}\<close> give one brace, and each replacement field is rendered as soon as it has
  been parsed, so the first failure in reading order is the one raised. The format spec of
  a field is expanded by a nested call with \<open>recursion_depth - 1\<close>, which \<open>build_string\<close>
  refuses at depth \<open>0\<close>.
\<close>

function do_markup :: "nat \<Rightarrow> (string \<times> string) list \<Rightarrow> string \<Rightarrow> error + string" where
  "do_markup recursion_depth kwargs [] = Inr []"
| "do_markup recursion_depth kwargs (c # cs) =
     (if c = CHR ''{'' \<or> c = CHR ''}'' then
        (case cs of
           [] \<Rightarrow> Inl (ValueError (if c = CHR ''}'' then Single_rbrace else Single_lbrace))
         | c' # cs' \<Rightarrow>
             if c' = c then
               (case do_markup recursion_depth kwargs cs' of
                  Inl e \<Rightarrow> Inl e
                | Inr out \<Rightarrow> Inr (c # out))
             else if c = CHR ''}'' then Inl (ValueError Single_rbrace)
             else
               (case parse_field cs of
                  Inl e \<Rightarrow> Inl e
                | Inr ((field_name, conversion, format_spec, expand), rest) \<Rightarrow>
                    (case get_field_object kwargs field_name of
                       Inl e \<Rightarrow> Inl e
                     | Inr fieldobj \<Rightarrow>
                         (case do_conversion conversion fieldobj of
                            Inl e \<Rightarrow> Inl e
                          | Inr obj \<Rightarrow>
                              (case (if expand then
                                       (if recursion_depth - 1 = 0
                                        then Inl (ValueError Max_recursion)
                                        else do_markup (recursion_depth - 1) kwargs format_spec)
                                     else Inr format_spec) of
                                 Inl e \<Rightarrow> Inl e
                               | Inr actual_format_spec \<Rightarrow>
                                   (case render_field obj actual_format_spec of
                                      Inl e \<Rightarrow> Inl e
                                    | Inr text \<Rightarrow>
                                        (case do_markup recursion_depth kwargs rest of
                                           Inl e \<Rightarrow> Inl e
                                         | Inr out \<Rightarrow> Inr (text @ out))))))))
      else (case do_markup recursion_depth kwargs cs of
              Inl e \<Rightarrow> Inl e
            | Inr out \<Rightarrow> Inr (c # out)))"
  by pat_completeness auto
termination
  by (relation "measure (\<lambda>(d, kw, s). length s)") (auto dest: parse_field_length)

text \<open>\<open>template.format(**kwargs)\<close>: \<open>build_string\<close> at recursion depth \<open>2\<close>.\<close>

definition str_format :: "string \<Rightarrow> (string \<times> string) list \<Rightarrow> error + string" where
  "str_format template kwargs = do_markup 2 kwargs template"

text \<open>
  Two predicates used to state properties of templates. A character that may stand in a
  field name without ending it or starting an accessor, and a field name that is a plain
  keyword: not empty, made of such characters, and not a number.
\<close>

definition field_name_char :: "char \<Rightarrow> bool" where
  "field_name_char c =
     (c \<noteq> CHR ''{'' \<and> c \<noteq> CHR ''}'' \<and> c \<noteq> CHR ''['' \<and> c \<noteq> CHR ''.'' \<and> c \<noteq> CHR ''!'' \<and> c \<noteq> CHR '':'')"

definition plain_keyword :: "string \<Rightarrow> bool" where
  "plain_keyword name =
     (name \<noteq> [] \<and> list_all field_name_char name \<and> get_integer name = Inr None)"

subsection \<open>\<open>pathlib.PurePath\<close>, POSIX flavour\<close>

text \<open>
  A pure path is its root (empty, \<open>/\<close> or \<open>//\<close>) and its components; the components
  never contain the separator and are never empty or \<open>.\<close>.
\<close>

record PurePath =
  pp_root :: string
  pp_parts :: "string list"

text \<open>\<open>rel.split(sep)\<close>: the pieces of a string between the separators, at least one.\<close>

fun split_sep :: "char \<Rightarrow> string \<Rightarrow> string list" where
  "split_sep sep [] = [[]]"
| "split_sep sep (c # cs) =
     (if c = sep then [] # split_sep sep cs
      else (case split_sep sep cs of
              [] \<Rightarrow> [[c]]
            | x # xs \<Rightarrow> (c # x) # xs))"

text \<open>\<open>sep.join(parts)\<close>.\<close>

fun join_sep :: "char \<Rightarrow> string list \<Rightarrow> string" where
  "join_sep sep [] = []"
| "join_sep sep [x] = x"
| "join_sep sep (x # y # ys) = x @ sep # join_sep sep (y # ys)"

text \<open>
  \<open>splitroot\<close>: exactly two leading slashes are kept as the root \<open>//\<close>, any other number
  of leading slashes is the root \<open>/\<close>.
\<close>

definition splitroot :: "string \<Rightarrow> string \<times> string" where
  "splitroot part =
     (case part of
        [] \<Rightarrow> ([], part)
      | c # cs \<Rightarrow>
          if c = CHR ''/'' then
            (let stripped_part = dropWhile (\<lambda>x. x = CHR ''/'') part in
             if length part - length stripped_part = 2 then (''//'', stripped_part)
             else (''/'', stripped_part))
          else ([], part))"

text \<open>
  \<open>parse_parts\<close> reads the segments from the last to the first and stops at the first
  one that has a root; empty components and \<open>.\<close> are dropped. The argument is the
  reversed list of segments.
\<close>

fun parse_parts_rev :: "string list \<Rightarrow> string \<times> string list" where
  "parse_parts_rev [] = ([], [])"
| "parse_parts_rev (part # others) =
     (if part = [] then parse_parts_rev others
      else
        (let (root, rel) = splitroot part;
             parsed = filter (\<lambda>x. x \<noteq> [] \<and> x \<noteq> ''.'') (split_sep CHR ''/'' rel)
         in if root \<noteq> [] then (root, parsed)
            else (let (root', parsed') = parse_parts_rev others in (root', parsed' @ parsed))))"

definition PurePath_of :: "string list \<Rightarrow> PurePath" where
  "PurePath_of segments =
     (let (root, parsed) = parse_parts_rev (rev segments)
      in \<lparr>pp_root = root, pp_parts = parsed\<rparr>)"

text \<open>\<open>str(path)\<close>: the root and the components joined by \<open>/\<close>, or \<open>.\<close> for the empty path.\<close>

definition path_str :: "PurePath \<Rightarrow> string" where
  "path_str p =
     (if pp_root p = [] \<and> pp_parts p = [] then ''.''
      else pp_root p @ join_sep CHR ''/'' (pp_parts p))"

subsection \<open>The subsystem\<close>

text \<open>
  Modelled from the spec: the enumeration \<open>GoCoverMode\<close> is imported from
  \<open>pants.backend.go.util_rules.coverage\<close>, which is not part of the sources at hand; its
  members are the spec's closed set SET, COUNT, ATOMIC with the option strings
  \<open>set\<close>, \<open>count\<close> and \<open>atomic\<close>.
\<close>

datatype GoCoverMode = SET | COUNT | ATOMIC

definition cover_mode_choices :: "(string \<times> GoCoverMode) list" where
  "cover_mode_choices = [(''set'', SET), (''count'', COUNT), (''atomic'', ATOMIC)]"

text \<open>
  An instance of \<open>GoTestSubsystem\<close>: the value of each option it declares. The field
  \<open>coverage_output_dir_option\<close> is the option \<open>_coverage_output_dir\<close>.
\<close>

record GoTestSubsystem =
  args :: "string list"
  coverage_mode :: GoCoverMode
  coverage_output_dir_option :: string
  coverage_html :: bool
  coverage_include_patterns :: "string list"
  skip :: bool
  force_race :: bool
  force_msan :: bool
  force_asan :: bool

text \<open>
  \<open>DistDir\<close> comes from \<open>pants.core.util_rules.distdir\<close>; of it only \<open>relpath\<close> is
  used, as the text that \<open>str.format\<close> inserts for it.
\<close>

record DistDir =
  relpath :: string

text \<open>
  The default of \<open>_coverage_output_dir\<close>:
  \<open>str(PurePath("{distdir}", "coverage", "go", "{import_path_escaped}"))\<close>.
\<close>

definition default_coverage_output_dir :: string where
  "default_coverage_output_dir =
     path_str (PurePath_of [''{distdir}'', ''coverage'', ''go'', ''{import_path_escaped}''])"

text \<open>The method \<open>coverage_output_dir\<close>.\<close>

definition coverage_output_dir :: "GoTestSubsystem \<Rightarrow> DistDir \<Rightarrow> string \<Rightarrow> error + PurePath" where
  "coverage_output_dir self distdir import_path =
     (let import_path_escaped = str_replace ''/'' ''_'' import_path in
      case str_format (coverage_output_dir_option self)
             [(''distdir'', relpath distdir), (''import_path_escaped'', import_path_escaped)] of
        Inl e \<Rightarrow> Inl e
      | Inr expanded \<Rightarrow> Inr (PurePath_of [expanded]))"



subsection \<open>Option loading\<close>

text \<open>
  Modelled from the spec: the option framework (\<open>pants.option\<close>: \<open>EnumOption\<close>,
  \<open>BoolOption\<close>, \<open>SkipOption\<close> and the others) that parses, validates and defaults the
  option values is not part of the sources at hand. Section 4.1 of the spec: the validator
  takes a raw value and a closed set of named choices and returns the matching member, or
  fails with \<open>InvalidChoice\<close> naming the offending value and the full set of legal values.
\<close>

datatype config_error = InvalidChoice string "string list"

definition validate_choice :: "(string \<times> 'a) list \<Rightarrow> string \<Rightarrow> config_error + 'a" where
  "validate_choice choices raw =
     (case map_of choices raw of
        Some member \<Rightarrow> Inr member
      | None \<Rightarrow> Inl (InvalidChoice raw (map fst choices)))"

text \<open>The raw option values of one build invocation; \<open>None\<close> is an option left alone.\<close>

record RawOptions =
  raw_args :: "string list option"
  raw_cover_mode :: "string option"
  raw_coverage_output_dir :: "string option"
  raw_coverage_html :: "bool option"
  raw_coverage_include_patterns :: "string list option"
  raw_skip :: "bool option"
  raw_force_race :: "bool option"
  raw_force_msan :: "bool option"
  raw_force_asan :: "bool option"

definition no_overrides :: RawOptions where
  "no_overrides =
     \<lparr>raw_args = None, raw_cover_mode = None, raw_coverage_output_dir = None,
      raw_coverage_html = None, raw_coverage_include_patterns = None, raw_skip = None,
      raw_force_race = None, raw_force_msan = None, raw_force_asan = None\<rparr>"

definition option_value :: "'a \<Rightarrow> 'a option \<Rightarrow> 'a" where
  "option_value dflt raw = (case raw of None \<Rightarrow> dflt | Some v \<Rightarrow> v)"

text \<open>
  Modelled from the spec: construction of the configuration (section 4.4 (a), section 5).
  The coverage mode is validated first and a failure aborts the construction; every other
  option takes its raw value or else its default. The defaults are the \<open>default=\<close>
  arguments of the declarations in \<open>gotest.py\<close>; those of \<open>args\<close> and \<open>skip\<close>, which
  the declarations leave to the framework, are the spec's.
\<close>

definition construct :: "RawOptions \<Rightarrow> config_error + GoTestSubsystem" where
  "construct raw =
     (case (case raw_cover_mode raw of
              None \<Rightarrow> Inr SET
            | Some value \<Rightarrow> validate_choice cover_mode_choices value) of
        Inl e \<Rightarrow> Inl e
      | Inr mode \<Rightarrow>
          Inr \<lparr>args = option_value [] (raw_args raw),
               coverage_mode = mode,
               coverage_output_dir_option =
                 option_value default_coverage_output_dir (raw_coverage_output_dir raw),
               coverage_html = option_value True (raw_coverage_html raw),
               coverage_include_patterns = option_value [] (raw_coverage_include_patterns raw),
               skip = option_value False (raw_skip raw),
               force_race = option_value False (raw_force_race raw),
               force_msan = option_value False (raw_force_msan raw),
               force_asan = option_value False (raw_force_asan raw)\<rparr>)"

subsection \<open>Sanitizer resolution\<close>

text \<open>
  Modelled from the spec: the rules that combine the force flags with the fields of a
  target (\<open>GoTestRaceDetectorEnabledField\<close> and its two siblings) are not part of the
  sources at hand; \<open>gotest.py\<close> only declares the flags. Section 4.3: if the force flag is
  true the result is true; otherwise it is the per-target value, false if the target
  declared no opinion. Section 4.4 (d): the resolver is called three times.
\<close>

record PerTargetOverride =
  race_detector_enabled :: "bool option"
  memory_sanitizer_enabled :: "bool option"
  address_sanitizer_enabled :: "bool option"

definition resolve :: "bool \<Rightarrow> bool option \<Rightarrow> bool" where
  "resolve forceFlag perTargetValue =
     (if forceFlag then True
      else (case perTargetValue of None \<Rightarrow> False | Some v \<Rightarrow> v))"

definition resolveSanitizers :: "GoTestSubsystem \<Rightarrow> PerTargetOverride \<Rightarrow> bool \<times> bool \<times> bool" where
  "resolveSanitizers self target =
     (resolve (force_race self) (race_detector_enabled target),
      resolve (force_msan self) (memory_sanitizer_enabled target),
      resolve (force_asan self) (address_sanitizer_enabled target))"

section \<open>Properties\<close>

subsection \<open>Evaluating the default template\<close>

lemma default_coverage_output_dir_eq:
  "default_coverage_output_dir = ''{distdir}/coverage/go/{import_path_escaped}''"
  by code_simp

lemma get_field_object_distdir:
  "get_field_object [(''distdir'', d), (''import_path_escaped'', e)] ''distdir'' = Inr d"
  by (simp add: get_field_object_def field_name_split_def get_integer_def digit_val_def)

lemma get_field_object_import_path_escaped:
  "get_field_object [(''distdir'', d), (''import_path_escaped'', e)] ''import_path_escaped''
     = Inr e"
  by (simp add: get_field_object_def field_name_split_def get_integer_def digit_val_def)

lemma str_format_default:
  "str_format ''{distdir}/coverage/go/{import_path_escaped}''
     [(''distdir'', d), (''import_path_escaped'', e)] = Inr (d @ ''/coverage/go/'' @ e)"
  by (simp add: str_format_def parse_field_def get_field_object_distdir
        get_field_object_import_path_escaped do_conversion_def render_field_def)

lemma str_replace_slash:
  "str_replace ''/'' ''_'' s = map (\<lambda>c. if c = CHR ''/'' then CHR ''_'' else c) s"
  by (induction s) simp_all

lemma coverage_output_dir_default:
  "coverage_output_dir (self\<lparr>coverage_output_dir_option := default_coverage_output_dir\<rparr>)
     distdir import_path
   = Inr (PurePath_of [relpath distdir @ ''/coverage/go/'' @ str_replace ''/'' ''_'' import_path])"
  by (simp add: coverage_output_dir_def default_coverage_output_dir_eq str_format_default)

subsection \<open>Templates are read from left to right\<close>

text \<open>
  What \<open>parse_field\<close> and \<open>do_markup\<close> return on a text they return again when more
  text follows it, so the expansion of a template that expands is the start of the
  expansion of every template it begins.
\<close>

lemma dropWhile_append_mem:
  "x \<in> set xs \<Longrightarrow> \<not> P x \<Longrightarrow> dropWhile P (xs @ ys) = dropWhile P xs @ ys"
  by (induction xs) auto

lemma takeWhile_append_mem:
  "x \<in> set xs \<Longrightarrow> \<not> P x \<Longrightarrow> takeWhile P (xs @ ys) = takeWhile P xs"
  by (induction xs) auto

lemma scan_field_name_append:
  "scan_field_name s = Inr (name, c, rest) \<Longrightarrow> scan_field_name (s @ t) = Inr (name, c, rest @ t)"
proof (induction s arbitrary: name rule: scan_field_name.induct)
  case 1
  then show ?case by simp
next
  case (2 c' cs)
  show ?case
  proof (cases "c' = CHR ''[''")
    case True
    have ne: "dropWhile (\<lambda>x. x \<noteq> CHR '']'') cs \<noteq> []"
    proof
      assume "dropWhile (\<lambda>x. x \<noteq> CHR '']'') cs = []"
      with "2.prems" True show False by simp
    qed
    then obtain x where mem: "x \<in> set cs" "\<not> x \<noteq> CHR '']''"
      by (auto simp: dropWhile_eq_Nil_conv)
    have d: "dropWhile (\<lambda>x. x \<noteq> CHR '']'') (cs @ t) = dropWhile (\<lambda>x. x \<noteq> CHR '']'') cs @ t"
      using mem by (rule dropWhile_append_mem)
    have tk: "takeWhile (\<lambda>x. x \<noteq> CHR '']'') (cs @ t) = takeWhile (\<lambda>x. x \<noteq> CHR '']'') cs"
      using mem by (rule takeWhile_append_mem)
    from "2.prems" True "2.IH"(1) show ?thesis
      by (auto simp: d tk split: sum.splits)
  next
    case False
    with "2.prems" "2.IH"(2) show ?thesis
      by (auto split: sum.splits if_splits)
  qed
qed

lemma scan_format_spec_append:
  "scan_format_spec n s = Inr (spec, expand, rest)
   \<Longrightarrow> scan_format_spec n (s @ t) = Inr (spec, expand, rest @ t)"
  by (induction n s arbitrary: spec expand rule: scan_format_spec.induct)
     (auto split: if_splits sum.splits)

lemma parse_field_append:
  assumes "parse_field s = Inr (fld, rest)"
  shows "parse_field (s @ t) = Inr (fld, rest @ t)"
proof -
  obtain name c after where n: "scan_field_name s = Inr (name, c, after)"
    using assms unfolding parse_field_def by (auto split: sum.splits)
  note n' = scan_field_name_append [OF n, of t]
  show ?thesis
  proof (cases "c = CHR ''}''")
    case True
    with assms n n' show ?thesis by (simp add: parse_field_def)
  next
    case False
    note nb = this
    show ?thesis
    proof (cases "c = CHR ''!''")
      case False
      with assms n nb obtain spec expand where
        sp: "scan_format_spec 1 after = Inr (spec, expand, rest)"
        and fld: "fld = (name, None, spec, expand)"
        unfolding parse_field_def by (auto split: sum.splits)
      from scan_format_spec_append [OF sp, of t] fld n' nb False show ?thesis
        by (simp add: parse_field_def)
    next
      case True
      from assms n True obtain conversion c' after'' where
        a: "after = conversion # c' # after''"
        unfolding parse_field_def by (auto split: list.splits)
      show ?thesis
      proof (cases "c' = CHR ''}''")
        case True
        with assms n n' a \<open>c = CHR ''!''\<close> show ?thesis
          by (simp add: parse_field_def)
      next
        case False
        with assms n a \<open>c = CHR ''!''\<close> have col: "c' = CHR '':''"
          unfolding parse_field_def by (auto split: if_splits)
        with assms n a \<open>c = CHR ''!''\<close> obtain spec expand where
          sp: "scan_format_spec 1 after'' = Inr (spec, expand, rest)"
          and fld: "fld = (name, Some conversion, spec, expand)"
          unfolding parse_field_def by (auto split: sum.splits)
        from scan_format_spec_append [OF sp, of t] fld n' a col \<open>c = CHR ''!''\<close> show ?thesis
          by (simp add: parse_field_def)
      qed
    qed
  qed
qed

lemma do_markup_append:
  "do_markup d kw s = Inr out \<Longrightarrow>
   do_markup d kw (s @ t) =
     (case do_markup d kw t of Inl e \<Rightarrow> Inl e | Inr out' \<Rightarrow> Inr (out @ out'))"
proof (induction d kw s arbitrary: out rule: do_markup.induct)
  case (1 d kw)
  then show ?case by (simp split: sum.splits)
next
  case (2 d kw c cs)
  show ?case
  proof (cases "c = CHR ''{'' \<or> c = CHR ''}''")
    case False
    with "2.prems" obtain out0 where o: "do_markup d kw cs = Inr out0" "out = c # out0"
      by (auto split: sum.splits)
    from "2.IH"(4) [OF False o(1)] False o(2) show ?thesis
      by (simp split: sum.splits)
  next
    case brace: True
    with "2.prems" obtain c' cs' where cs: "cs = c' # cs'"
      by (cases cs) auto
    show ?thesis
    proof (cases "c' = c")
      case True
      with "2.prems" brace cs obtain out0 where
        o: "do_markup d kw cs' = Inr out0" "out = c # out0"
        by (auto split: sum.splits)
      from "2.IH"(1) [OF brace cs True o(1)] brace cs True o(2) show ?thesis
        by (simp split: sum.splits)
    next
      case False
      with "2.prems" brace cs have lb: "c \<noteq> CHR ''}''"
        by auto
      from "2.prems" brace cs False lb obtain fld rest where
        pf: "parse_field cs = Inr (fld, rest)"
        by (auto split: sum.splits)
      obtain field_name conversion format_spec expand where
        fld: "fld = (field_name, conversion, format_spec, expand)"
        by (cases fld) auto
      from "2.prems" brace cs False lb pf fld obtain fieldobj where
        gf: "get_field_object kw field_name = Inr fieldobj"
        by (auto split: sum.splits)
      from "2.prems" brace cs False lb pf fld gf obtain obj where
        dc: "do_conversion conversion fieldobj = Inr obj"
        by (auto split: sum.splits)
      from "2.prems" brace cs False lb pf fld gf dc obtain actual where
        ex: "(if expand then
                (if d - 1 = 0 then Inl (ValueError Max_recursion)
                 else do_markup (d - 1) kw format_spec)
              else Inr format_spec) = Inr actual"
        by (auto split: sum.splits)
      from "2.prems" brace cs False lb pf fld gf dc ex obtain rendered where
        rf: "render_field obj actual = Inr rendered"
        by (auto split: sum.splits)
      from "2.prems" brace cs False lb pf fld gf dc ex rf obtain out0 where
        o: "do_markup d kw rest = Inr out0" "out = rendered @ out0"
        by (auto split: sum.splits)
      have ih: "do_markup d kw (rest @ t) =
          (case do_markup d kw t of Inl e \<Rightarrow> Inl e | Inr out' \<Rightarrow> Inr (out0 @ out'))"
        using "2.IH"(3) [OF brace cs False lb pf [unfolded fld] refl refl refl refl gf dc ex rf o(1)] .
      have pf': "parse_field (cs @ t) = Inr ((field_name, conversion, format_spec, expand), rest @ t)"
        using parse_field_append [OF pf, of t] fld by simp
      have "do_markup d kw ((c # cs) @ t) =
          (case do_markup d kw (rest @ t) of Inl e \<Rightarrow> Inl e | Inr out' \<Rightarrow> Inr (rendered @ out'))"
        using brace cs False lb pf' gf dc ex rf by simp
      with ih o(2) show ?thesis
        by (simp split: sum.splits)
    qed
  qed
qed

lemma do_markup_no_braces:
  "CHR ''{'' \<notin> set s \<Longrightarrow> CHR ''}'' \<notin> set s \<Longrightarrow> do_markup d kw s = Inr s"
  by (induction s) auto

subsection \<open>Fields that are a plain keyword\<close>

lemma scan_field_name_plain:
  "list_all field_name_char name \<Longrightarrow>
   scan_field_name (name @ CHR ''}'' # rest) = Inr (name, CHR ''}'', rest)"
  by (induction name) (simp_all add: field_name_char_def)

lemma parse_field_plain:
  "list_all field_name_char name \<Longrightarrow>
   parse_field (name @ CHR ''}'' # rest) = Inr ((name, None, [], False), rest)"
  by (simp add: parse_field_def scan_field_name_plain)

lemma field_name_split_plain:
  "list_all field_name_char name \<Longrightarrow> field_name_split name = (name, [])"
  unfolding field_name_split_def
  by (induction name) (simp_all add: field_name_char_def)

lemma get_field_object_unknown:
  "plain_keyword name \<Longrightarrow> map_of kwargs name = None \<Longrightarrow>
   get_field_object kwargs name = Inl (KeyError name)"
  by (simp add: plain_keyword_def get_field_object_def field_name_split_plain)

lemma get_field_object_known:
  "plain_keyword name \<Longrightarrow> map_of kwargs name = Some v \<Longrightarrow>
   get_field_object kwargs name = Inr v"
  by (simp add: plain_keyword_def get_field_object_def field_name_split_plain)

lemma plain_keyword_import_path_escaped: "plain_keyword ''import_path_escaped''"
  by (simp add: plain_keyword_def field_name_char_def get_integer_def digit_val_def)

lemma do_markup_field_step:
  assumes "c \<noteq> CHR ''{''"
    and "parse_field (c # cs) = Inr ((field_name, None, [], False), rest)"
  shows "do_markup d kw (CHR ''{'' # c # cs) =
           (case get_field_object kw field_name of
              Inl e \<Rightarrow> Inl e
            | Inr obj \<Rightarrow>
                (case do_markup d kw rest of Inl e \<Rightarrow> Inl e | Inr out \<Rightarrow> Inr (obj @ out)))"
  using assms by (simp add: do_conversion_def render_field_def split: sum.splits)

lemma do_markup_plain_field:
  assumes "plain_keyword name"
  shows "do_markup d kw (CHR ''{'' # name @ CHR ''}'' # rest) =
           (case map_of kw name of
              None \<Rightarrow> Inl (KeyError name)
            | Some v \<Rightarrow>
                (case do_markup d kw rest of Inl e \<Rightarrow> Inl e | Inr out \<Rightarrow> Inr (v @ out)))"
proof -
  from assms obtain c cs where name: "name = c # cs"
    by (cases name) (simp_all add: plain_keyword_def)
  from assms have chars: "list_all field_name_char name"
    by (simp add: plain_keyword_def)
  then have c: "c \<noteq> CHR ''{''"
    by (simp add: name field_name_char_def)
  have pf: "parse_field (c # cs @ CHR ''}'' # rest) = Inr ((name, None, [], False), rest)"
    using parse_field_plain [OF chars, of rest] by (simp add: name)
  have "do_markup d kw (CHR ''{'' # c # cs @ CHR ''}'' # rest) =
           (case get_field_object kw name of
              Inl e \<Rightarrow> Inl e
            | Inr obj \<Rightarrow>
                (case do_markup d kw rest of Inl e \<Rightarrow> Inl e | Inr out \<Rightarrow> Inr (obj @ out)))"
    by (rule do_markup_field_step [OF c pf])
  then show ?thesis
    using get_field_object_unknown [OF assms, of kw] get_field_object_known [OF assms, of kw]
    by (cases "map_of kw name") (simp_all add: name)
qed

lemma str_format_unknown_field:
  assumes "str_format pre kw = Inr out" and "plain_keyword name" and "map_of kw name = None"
  shows "str_format (pre @ ''{'' @ name @ ''}'' @ rest) kw = Inl (KeyError name)"
  using do_markup_append [OF assms(1) [unfolded str_format_def], of "CHR ''{'' # name @ CHR ''}'' # rest"]
    do_markup_plain_field [OF assms(2), of 2 kw rest] assms(3)
  by (simp add: str_format_def)

lemma str_format_known_field:
  assumes "str_format pre kw = Inr a" and "plain_keyword name" and "map_of kw name = Some v"
    and "str_format rest kw = Inr b"
  shows "str_format (pre @ ''{'' @ name @ ''}'' @ rest) kw = Inr (a @ v @ b)"
  using do_markup_append [OF assms(1) [unfolded str_format_def], of "CHR ''{'' # name @ CHR ''}'' # rest"]
    do_markup_plain_field [OF assms(2), of 2 kw rest] assms(3,4)
  by (simp add: str_format_def)

lemma str_format_no_braces:
  "CHR ''{'' \<notin> set s \<Longrightarrow> CHR ''}'' \<notin> set s \<Longrightarrow> str_format s kwargs = Inr s"
  by (simp add: str_format_def do_markup_no_braces)

subsection \<open>Where a text without a slash goes in a path\<close>

lemma split_sep_not_Nil: "split_sep sep s \<noteq> []"
  by (induction s) (auto split: list.splits)

lemma split_sep_prefix:
  "sep \<notin> set e \<Longrightarrow>
   split_sep sep (e @ b) = (e @ hd (split_sep sep b)) # tl (split_sep sep b)"
proof (induction e)
  case Nil
  then show ?case using split_sep_not_Nil [of sep b] by simp
next
  case (Cons c e)
  then show ?case by auto
qed

lemma split_sep_component:
  "sep \<notin> set e \<Longrightarrow> \<exists>x y. x @ e @ y \<in> set (split_sep sep (a @ e @ b))"
proof (induction a)
  case Nil
  have "[] @ e @ hd (split_sep sep b) \<in> set (split_sep sep ([] @ e @ b))"
    using split_sep_prefix [OF Nil, of b] by simp
  then show ?case by blast
next
  case (Cons c a)
  then obtain x y where xy: "x @ e @ y \<in> set (split_sep sep (a @ e @ b))"
    by blast
  show ?case
  proof (cases "c = sep")
    case True
    with xy have "x @ e @ y \<in> set (split_sep sep ((c # a) @ e @ b))"
      by simp
    then show ?thesis by blast
  next
    case False
    obtain p ps where ps: "split_sep sep (a @ e @ b) = p # ps"
      using split_sep_not_Nil [of sep "a @ e @ b"] by (cases "split_sep sep (a @ e @ b)") auto
    from xy ps have "x @ e @ y = p \<or> x @ e @ y \<in> set ps"
      by simp
    then show ?thesis
    proof
      assume "x @ e @ y = p"
      then have "(c # x) @ e @ y \<in> set (split_sep sep ((c # a) @ e @ b))"
        using False ps by simp
      then show ?thesis by blast
    next
      assume "x @ e @ y \<in> set ps"
      then have "x @ e @ y \<in> set (split_sep sep ((c # a) @ e @ b))"
        using False ps by simp
      then show ?thesis by blast
    qed
  qed
qed

lemma sublist_prepend: "sublist xs ys \<Longrightarrow> sublist xs (ps @ ys)"
  by (simp add: sublist_append)

lemma sublist_join_sep:
  "p \<in> set ps \<Longrightarrow> sublist p (join_sep sep ps)"
proof (induction sep ps rule: join_sep.induct)
  case (1 sep)
  then show ?case by simp
next
  case (2 sep x)
  then show ?case by simp
next
  case (3 sep x y ys)
  show ?case
  proof (cases "p = x")
    case True
    then show ?thesis by (simp add: sublist_append_rightI)
  next
    case False
    with 3 have "sublist p (join_sep sep (y # ys))"
      by simp
    then have "sublist p ((x @ [sep]) @ join_sep sep (y # ys))"
      by (rule sublist_prepend)
    then show ?thesis by simp
  qed
qed

lemma PurePath_of_single:
  "s \<noteq> [] \<Longrightarrow>
   pp_parts (PurePath_of [s]) =
     filter (\<lambda>x. x \<noteq> [] \<and> x \<noteq> ''.'')
       (split_sep CHR ''/'' (dropWhile (\<lambda>x. x = CHR ''/'') s))"
  by (cases s) (simp_all add: PurePath_of_def splitroot_def Let_def)

lemma dropWhile_slashes:
  assumes "e \<noteq> []" and "CHR ''/'' \<notin> set e"
  shows "\<exists>a'. dropWhile (\<lambda>x. x = CHR ''/'') (a @ e @ b) = a' @ e @ b"
proof (cases "\<forall>x \<in> set a. x = CHR ''/''")
  case True
  from assms obtain c cs where e: "e = c # cs" and c: "c \<noteq> CHR ''/''"
    by (cases e) auto
  from True have "dropWhile (\<lambda>x. x = CHR ''/'') (a @ e @ b) = dropWhile (\<lambda>x. x = CHR ''/'') (e @ b)"
    by (simp add: dropWhile_append2)
  also have "\<dots> = [] @ e @ b"
    using c by (simp add: e)
  finally show ?thesis by blast
next
  case False
  then have "dropWhile (\<lambda>x. x = CHR ''/'') (a @ e @ b) = dropWhile (\<lambda>x. x = CHR ''/'') a @ e @ b"
    by (auto simp: dropWhile_append1)
  then show ?thesis by blast
qed

lemma sublist_path_str:
  assumes "e \<noteq> []" and "e \<noteq> ''.''" and "CHR ''/'' \<notin> set e"
  shows "sublist e (path_str (PurePath_of [a @ e @ b]))"
proof -
  let ?s = "a @ e @ b"
  from assms(1) have ne: "?s \<noteq> []" by simp
  obtain a' where a': "dropWhile (\<lambda>x. x = CHR ''/'') ?s = a' @ e @ b"
    using dropWhile_slashes [OF assms(1,3)] by blast
  obtain x y where xy: "x @ e @ y \<in> set (split_sep CHR ''/'' (a' @ e @ b))"
    using split_sep_component [OF assms(3)] by blast
  have ok: "x @ e @ y \<noteq> [] \<and> x @ e @ y \<noteq> ''.''"
    using assms(1,2) by (cases x; cases e) auto
  have mem: "x @ e @ y \<in> set (pp_parts (PurePath_of [?s]))"
    using xy ok by (simp add: PurePath_of_single [OF ne] a')
  then have parts: "pp_parts (PurePath_of [?s]) \<noteq> []"
    by auto
  have "sublist e (x @ e @ y)"
    by (simp add: sublist_appendI)
  moreover have "sublist (x @ e @ y) (join_sep CHR ''/'' (pp_parts (PurePath_of [?s])))"
    by (rule sublist_join_sep [OF mem])
  ultimately have "sublist e (join_sep CHR ''/'' (pp_parts (PurePath_of [?s])))"
    by (rule sublist_order.order_trans)
  then have "sublist e (pp_root (PurePath_of [?s]) @ join_sep CHR ''/'' (pp_parts (PurePath_of [?s])))"
    by (rule sublist_prepend)
  then show ?thesis
    using parts by (simp add: path_str_def)
qed

lemma str_replace_no_slash: "CHR ''/'' \<notin> set (str_replace ''/'' ''_'' s)"
  by (auto simp: str_replace_slash)

lemma split_sep_no_sep: "sep \<notin> set s \<Longrightarrow> split_sep sep s = [s]"
  by (induction s) auto

lemma PurePath_of_component:
  assumes "CHR ''/'' \<notin> set s" and "s \<noteq> []" and "s \<noteq> ''.''"
  shows "PurePath_of [s] = \<lparr>pp_root = [], pp_parts = [s]\<rparr>"
proof -
  from assms(1,2) obtain c cs where s: "s = c # cs" and c: "c \<noteq> CHR ''/''"
    by (cases s) auto
  have "splitroot s = ([], s)"
    using c by (simp add: s splitroot_def)
  then show ?thesis
    using assms by (simp add: PurePath_of_def split_sep_no_sep)
qed

lemma str_format_bare:
  "str_format ''{import_path_escaped}'' [(''distdir'', d), (''import_path_escaped'', e)] = Inr e"
  by (simp add: str_format_def parse_field_def get_field_object_import_path_escaped
        do_conversion_def render_field_def)

lemma coverage_output_dir_bare:
  "coverage_output_dir (self\<lparr>coverage_output_dir_option := ''{import_path_escaped}''\<rparr>)
     distdir import_path
   = Inr (PurePath_of [str_replace ''/'' ''_'' import_path])"
  by (simp add: coverage_output_dir_def str_format_bare)



subsection \<open>The method \<open>coverage_output_dir\<close> and the options\<close>

text \<open>
  C1 (as amended). A placeholder \<open>{name}\<close> whose name is not a keyword argument is not
  passed through: when the template up to the placeholder expands, the whole call fails
  with \<open>KeyError\<close> carrying the name, whatever follows the placeholder.
\<close>

theorem unknown_placeholder_raises_KeyError:
  assumes "coverage_output_dir (self\<lparr>coverage_output_dir_option := pre\<rparr>) distdir import_path
             = Inr p"
    and "plain_keyword name"
    and "name \<noteq> ''distdir''"
    and "name \<noteq> ''import_path_escaped''"
  shows "coverage_output_dir
           (self\<lparr>coverage_output_dir_option := pre @ ''{'' @ name @ ''}'' @ rest\<rparr>)
           distdir import_path
         = Inl (KeyError name)"
proof -
  let ?kw = "[(''distdir'', relpath distdir),
              (''import_path_escaped'', str_replace ''/'' ''_'' import_path)]"
  from assms(1) obtain out where pre: "str_format pre ?kw = Inr out"
    by (auto simp: coverage_output_dir_def split: sum.splits)
  from assms(3,4) have "map_of ?kw name = None"
    by simp
  with pre assms(2) have "str_format (pre @ ''{'' @ name @ ''}'' @ rest) ?kw = Inl (KeyError name)"
    by (rule str_format_unknown_field)
  then show ?thesis
    by (simp add: coverage_output_dir_def)
qed

theorem unknown_placeholder_raises_KeyError_witness:
  "coverage_output_dir
     \<lparr>args = [], coverage_mode = SET, coverage_output_dir_option = ''{distdir}/'',
      coverage_html = True, coverage_include_patterns = [], skip = False,
      force_race = False, force_msan = False, force_asan = False\<rparr>
     \<lparr>relpath = ''d''\<rparr> ''p''
   = Inr \<lparr>pp_root = [], pp_parts = [''d'']\<rparr>
   \<and> plain_keyword ''unknown''
   \<and> coverage_output_dir
     \<lparr>args = [], coverage_mode = SET, coverage_output_dir_option = ''{distdir}/{unknown}'',
      coverage_html = True, coverage_include_patterns = [], skip = False,
      force_race = False, force_msan = False, force_asan = False\<rparr>
     \<lparr>relpath = ''d''\<rparr> ''p''
   = Inl (KeyError ''unknown'')"
proof -
  have pre: "coverage_output_dir
     \<lparr>args = [], coverage_mode = SET, coverage_output_dir_option = ''{distdir}/'',
      coverage_html = True, coverage_include_patterns = [], skip = False,
      force_race = False, force_msan = False, force_asan = False\<rparr>
     \<lparr>relpath = ''d''\<rparr> ''p''
   = Inr \<lparr>pp_root = [], pp_parts = [''d'']\<rparr>"
    by code_simp
  have name: "plain_keyword ''unknown''"
    by code_simp
  show ?thesis
    using unknown_placeholder_raises_KeyError
      [where self = "\<lparr>args = [], coverage_mode = SET, coverage_output_dir_option = [],
            coverage_html = True, coverage_include_patterns = [], skip = False,
            force_race = False, force_msan = False, force_asan = False\<rparr>"
         and pre = "''{distdir}/''" and distdir = "\<lparr>relpath = ''d''\<rparr>"
         and import_path = "''p''" and p = "\<lparr>pp_root = [], pp_parts = [''d'']\<rparr>"
         and name = "''unknown''" and rest = "[]"]
      pre name
    by simp
qed

theorem unknown_placeholder_not_passed_through:
  "coverage_output_dir
     \<lparr>args = [], coverage_mode = SET, coverage_output_dir_option = ''{distdir}/{unknown}'',
      coverage_html = True, coverage_include_patterns = [], skip = False,
      force_race = False, force_msan = False, force_asan = False\<rparr>
     \<lparr>relpath = ''d''\<rparr> ''p''
   = Inl (KeyError ''unknown'')
   \<and> str_format ''{distdir}/{unknown}'' [(''distdir'', ''d'')] \<noteq> Inr ''d/{unknown}''"
  by code_simp

text \<open>
  C2. With the default template, a distdir whose relative path is \<open>dist\<close> and the import
  path \<open>example.com/foo/bar\<close> give the path \<open>dist/coverage/go/example.com_foo_bar\<close>: the
  components \<open>dist\<close>, \<open>coverage\<close>, \<open>go\<close>, \<open>example.com_foo_bar\<close> below no root.
\<close>

theorem coverage_output_dir_default_example:
  "coverage_output_dir (self\<lparr>coverage_output_dir_option := default_coverage_output_dir\<rparr>)
     \<lparr>relpath = ''dist''\<rparr> ''example.com/foo/bar''
   = Inr \<lparr>pp_root = [], pp_parts = [''dist'', ''coverage'', ''go'', ''example.com_foo_bar'']\<rparr>
   \<and> path_str \<lparr>pp_root = [], pp_parts = [''dist'', ''coverage'', ''go'', ''example.com_foo_bar'']\<rparr>
     = ''dist/coverage/go/example.com_foo_bar''"
proof
  have "PurePath_of [''dist/coverage/go/example.com_foo_bar'']
        = \<lparr>pp_root = [], pp_parts = [''dist'', ''coverage'', ''go'', ''example.com_foo_bar'']\<rparr>"
    by code_simp
  then show "coverage_output_dir
      (self\<lparr>coverage_output_dir_option := default_coverage_output_dir\<rparr>)
      \<lparr>relpath = ''dist''\<rparr> ''example.com/foo/bar''
    = Inr \<lparr>pp_root = [], pp_parts = [''dist'', ''coverage'', ''go'', ''example.com_foo_bar'']\<rparr>"
    by (simp add: coverage_output_dir_default str_replace_slash)
next
  show "path_str \<lparr>pp_root = [], pp_parts = [''dist'', ''coverage'', ''go'', ''example.com_foo_bar'']\<rparr>
      = ''dist/coverage/go/example.com_foo_bar''"
    by (simp add: path_str_def)
qed

text \<open>
  C3. The resolver returns true when the force flag is true, whatever the target says, and
  the target's value otherwise, false when the target has no opinion: the disjunction of
  the two. \<open>resolveSanitizers\<close> applies it to each of race, msan and asan alike.
\<close>

theorem resolve_force_or_per_target:
  "resolve True perTargetValue = True
   \<and> resolve False (Some v) = v
   \<and> resolve False None = False
   \<and> resolve forceFlag (Some v) = (forceFlag \<or> v)
   \<and> resolve forceFlag None = forceFlag
   \<and> resolveSanitizers self target =
       (force_race self \<or> race_detector_enabled target = Some True,
        force_msan self \<or> memory_sanitizer_enabled target = Some True,
        force_asan self \<or> address_sanitizer_enabled target = Some True)"
  by (auto simp: resolve_def resolveSanitizers_def split: option.splits)

text \<open>
  C4. The escaping is seen through the method itself. With the template
  \<open>{import_path_escaped}\<close>, \<open>coverage_output_dir\<close> returns the path of the import path
  in which every \<open>/\<close> has become \<open>_\<close> and every other character is as it was; unless
  the import path is empty or \<open>.\<close>, that text is the one component of the path and the
  text of the path, so no character is added, dropped or moved. With the default template
  the same text follows \<open><distdir>/coverage/go/\<close>. An import path without a slash is
  used unchanged.
\<close>

theorem import_path_escaping:
  "coverage_output_dir (self\<lparr>coverage_output_dir_option := ''{import_path_escaped}''\<rparr>)
     distdir import_path
   = Inr (PurePath_of [map (\<lambda>c. if c = CHR ''/'' then CHR ''_'' else c) import_path])
   \<and> (import_path \<noteq> [] \<and> import_path \<noteq> ''.'' \<longrightarrow>
        coverage_output_dir (self\<lparr>coverage_output_dir_option := ''{import_path_escaped}''\<rparr>)
          distdir import_path
        = Inr \<lparr>pp_root = [],
               pp_parts = [map (\<lambda>c. if c = CHR ''/'' then CHR ''_'' else c) import_path]\<rparr>
        \<and> path_str \<lparr>pp_root = [],
               pp_parts = [map (\<lambda>c. if c = CHR ''/'' then CHR ''_'' else c) import_path]\<rparr>
          = map (\<lambda>c. if c = CHR ''/'' then CHR ''_'' else c) import_path)
   \<and> coverage_output_dir (self\<lparr>coverage_output_dir_option := default_coverage_output_dir\<rparr>)
       distdir import_path
     = Inr (PurePath_of [relpath distdir @ ''/coverage/go/''
                           @ map (\<lambda>c. if c = CHR ''/'' then CHR ''_'' else c) import_path])
   \<and> (CHR ''/'' \<notin> set import_path \<longrightarrow>
        coverage_output_dir (self\<lparr>coverage_output_dir_option := ''{import_path_escaped}''\<rparr>)
          distdir import_path
        = Inr (PurePath_of [import_path]))"
proof (intro conjI impI)
  let ?esc = "map (\<lambda>c. if c = CHR ''/'' then CHR ''_'' else c) import_path"
  show bare: "coverage_output_dir
      (self\<lparr>coverage_output_dir_option := ''{import_path_escaped}''\<rparr>) distdir import_path
    = Inr (PurePath_of [?esc])"
    by (simp add: coverage_output_dir_bare str_replace_slash)
  show "coverage_output_dir
      (self\<lparr>coverage_output_dir_option := default_coverage_output_dir\<rparr>) distdir import_path
    = Inr (PurePath_of [relpath distdir @ ''/coverage/go/'' @ ?esc])"
    by (simp add: coverage_output_dir_default str_replace_slash)
  {
    assume ne: "import_path \<noteq> [] \<and> import_path \<noteq> ''.''"
    have "CHR ''/'' \<notin> set ?esc"
      by auto
    moreover from ne have "?esc \<noteq> []"
      by simp
    moreover from ne have "?esc \<noteq> ''.''"
      by (cases import_path) (auto split: if_splits)
    ultimately have single: "PurePath_of [?esc] = \<lparr>pp_root = [], pp_parts = [?esc]\<rparr>"
      by (rule PurePath_of_component)
    with bare show "coverage_output_dir
        (self\<lparr>coverage_output_dir_option := ''{import_path_escaped}''\<rparr>) distdir import_path
      = Inr \<lparr>pp_root = [], pp_parts = [?esc]\<rparr>"
      by simp
    from ne show "path_str \<lparr>pp_root = [], pp_parts = [?esc]\<rparr> = ?esc"
      by (simp add: path_str_def)
  }
  {
    assume "CHR ''/'' \<notin> set import_path"
    then have "?esc = map (\<lambda>c. c) import_path"
      by (intro map_cong) auto
    with bare show "coverage_output_dir
        (self\<lparr>coverage_output_dir_option := ''{import_path_escaped}''\<rparr>) distdir import_path
      = Inr (PurePath_of [import_path])"
      by simp
  }
qed

theorem import_path_escaping_witness:
  "''net/http'' \<noteq> [] \<and> ''net/http'' \<noteq> ''.''
   \<and> coverage_output_dir
       \<lparr>args = [], coverage_mode = SET, coverage_output_dir_option = ''{import_path_escaped}'',
        coverage_html = True, coverage_include_patterns = [], skip = False,
        force_race = False, force_msan = False, force_asan = False\<rparr>
       \<lparr>relpath = ''dist''\<rparr> ''net/http''
     = Inr \<lparr>pp_root = [], pp_parts = [''net_http'']\<rparr>
   \<and> path_str \<lparr>pp_root = [], pp_parts = [''net_http'']\<rparr> = ''net_http''
   \<and> CHR ''/'' \<notin> set ''fmt''
   \<and> coverage_output_dir
       \<lparr>args = [], coverage_mode = SET, coverage_output_dir_option = ''{import_path_escaped}'',
        coverage_html = True, coverage_include_patterns = [], skip = False,
        force_race = False, force_msan = False, force_asan = False\<rparr>
       \<lparr>relpath = ''dist''\<rparr> ''fmt''
     = Inr (PurePath_of [''fmt''])"
  using import_path_escaping
      [where self = "\<lparr>args = [], coverage_mode = SET, coverage_output_dir_option = [],
            coverage_html = True, coverage_include_patterns = [], skip = False,
            force_race = False, force_msan = False, force_asan = False\<rparr>"
         and distdir = "\<lparr>relpath = ''dist''\<rparr>" and import_path = "''net/http''",
       THEN conjunct2, THEN conjunct1]
    import_path_escaping
      [where self = "\<lparr>args = [], coverage_mode = SET, coverage_output_dir_option = [],
            coverage_html = True, coverage_include_patterns = [], skip = False,
            force_race = False, force_msan = False, force_asan = False\<rparr>"
         and distdir = "\<lparr>relpath = ''dist''\<rparr>" and import_path = "''fmt''",
       THEN conjunct2, THEN conjunct2, THEN conjunct2]
  by simp

text \<open>
  C5. Substitution is single-pass. When the template is some text, the placeholder
  \<open>{import_path_escaped}\<close> and some more text, and the two texts expand to \<open>a\<close> and
  \<open>b\<close>, the result is the path of \<open>a\<close>, the escaped import path exactly as it is, and
  \<open>b\<close>: nothing inside the escaped import path is expanded, whatever braces it holds.
  So a piece of the escaped import path that holds a brace, like \<open>{distdir}\<close>, is
  found as it is in the text of the resulting path.
\<close>

theorem substitution_is_single_pass:
  assumes "str_format pre
             [(''distdir'', relpath distdir),
              (''import_path_escaped'', str_replace ''/'' ''_'' import_path)] = Inr a"
    and "str_format rest
             [(''distdir'', relpath distdir),
              (''import_path_escaped'', str_replace ''/'' ''_'' import_path)] = Inr b"
    and "sublist token (str_replace ''/'' ''_'' import_path)"
    and "CHR ''{'' \<in> set token"
  shows "coverage_output_dir
           (self\<lparr>coverage_output_dir_option := pre @ ''{import_path_escaped}'' @ rest\<rparr>)
           distdir import_path
         = Inr (PurePath_of [a @ str_replace ''/'' ''_'' import_path @ b])
         \<and> sublist token
             (path_str (PurePath_of [a @ str_replace ''/'' ''_'' import_path @ b]))"
proof
  let ?esc = "str_replace ''/'' ''_'' import_path"
  let ?kw = "[(''distdir'', relpath distdir), (''import_path_escaped'', ?esc)]"
  have "map_of ?kw ''import_path_escaped'' = Some ?esc"
    by simp
  with assms(1) plain_keyword_import_path_escaped
  have "str_format (pre @ ''{'' @ ''import_path_escaped'' @ ''}'' @ rest) ?kw = Inr (a @ ?esc @ b)"
    using assms(2) by (rule str_format_known_field)
  then show "coverage_output_dir
           (self\<lparr>coverage_output_dir_option := pre @ ''{import_path_escaped}'' @ rest\<rparr>)
           distdir import_path
         = Inr (PurePath_of [a @ ?esc @ b])"
    by (simp add: coverage_output_dir_def)
next
  let ?esc = "str_replace ''/'' ''_'' import_path"
  from assms(3,4) have brace: "CHR ''{'' \<in> set ?esc"
    using set_mono_sublist by blast
  then have "?esc \<noteq> []" and "?esc \<noteq> ''.''"
    by auto
  then have "sublist ?esc (path_str (PurePath_of [a @ ?esc @ b]))"
    using str_replace_no_slash by (rule sublist_path_str)
  with assms(3) show "sublist token (path_str (PurePath_of [a @ ?esc @ b]))"
    by (rule sublist_order.order_trans)
qed

theorem substitution_is_single_pass_witness:
  "str_format ''{distdir}/coverage/go/''
     [(''distdir'', ''dist''), (''import_path_escaped'', ''x_{distdir}'')]
   = Inr ''dist/coverage/go/''
   \<and> sublist ''{distdir}'' (str_replace ''/'' ''_'' ''x/{distdir}'')
   \<and> coverage_output_dir
       \<lparr>args = [], coverage_mode = SET,
        coverage_output_dir_option = ''{distdir}/coverage/go/{import_path_escaped}'',
        coverage_html = True, coverage_include_patterns = [], skip = False,
        force_race = False, force_msan = False, force_asan = False\<rparr>
       \<lparr>relpath = ''dist''\<rparr> ''x/{distdir}''
     = Inr (PurePath_of [''dist/coverage/go/x_{distdir}''])
   \<and> sublist ''{distdir}'' (path_str (PurePath_of [''dist/coverage/go/x_{distdir}'']))"
proof -
  have esc: "str_replace ''/'' ''_'' ''x/{distdir}'' = ''x_{distdir}''"
    by code_simp
  have pre: "str_format ''{distdir}/coverage/go/''
     [(''distdir'', ''dist''), (''import_path_escaped'', ''x_{distdir}'')]
   = Inr ''dist/coverage/go/''"
    by code_simp
  have rest: "str_format []
     [(''distdir'', ''dist''), (''import_path_escaped'', ''x_{distdir}'')] = Inr []"
    by code_simp
  have token: "sublist ''{distdir}'' ''x_{distdir}''"
    by code_simp
  show ?thesis
    using substitution_is_single_pass
      [where pre = "''{distdir}/coverage/go/''" and distdir = "\<lparr>relpath = ''dist''\<rparr>"
         and import_path = "''x/{distdir}''" and a = "''dist/coverage/go/''"
         and rest = "[]" and b = "[]" and token = "''{distdir}''"
         and self = "\<lparr>args = [], coverage_mode = SET, coverage_output_dir_option = [],
            coverage_html = True, coverage_include_patterns = [], skip = False,
            force_race = False, force_msan = False, force_asan = False\<rparr>"]
      esc pre rest token
    by simp
qed

text \<open>
  C6. The strings \<open>set\<close>, \<open>count\<close> and \<open>atomic\<close> validate to SET, COUNT and ATOMIC, and
  a configuration built with one of them carries that mode. Any other string fails with
  \<open>InvalidChoice\<close>, which names the string and the three legal values, and the
  construction fails with the same error instead of returning an instance.
\<close>

theorem coverage_mode_validation:
  "validate_choice cover_mode_choices ''set'' = Inr SET
   \<and> validate_choice cover_mode_choices ''count'' = Inr COUNT
   \<and> validate_choice cover_mode_choices ''atomic'' = Inr ATOMIC
   \<and> map_sum id coverage_mode (construct (raw\<lparr>raw_cover_mode := Some ''set''\<rparr>)) = Inr SET
   \<and> map_sum id coverage_mode (construct (raw\<lparr>raw_cover_mode := Some ''count''\<rparr>)) = Inr COUNT
   \<and> map_sum id coverage_mode (construct (raw\<lparr>raw_cover_mode := Some ''atomic''\<rparr>)) = Inr ATOMIC
   \<and> (value \<notin> {''set'', ''count'', ''atomic''} \<longrightarrow>
        validate_choice cover_mode_choices value
          = Inl (InvalidChoice value [''set'', ''count'', ''atomic''])
        \<and> construct (raw\<lparr>raw_cover_mode := Some value\<rparr>)
          = Inl (InvalidChoice value [''set'', ''count'', ''atomic'']))"
  by (simp add: validate_choice_def cover_mode_choices_def construct_def)

theorem coverage_mode_validation_witness:
  "''fast'' \<notin> {''set'', ''count'', ''atomic''}
   \<and> validate_choice cover_mode_choices ''fast''
       = Inl (InvalidChoice ''fast'' [''set'', ''count'', ''atomic''])
   \<and> construct (no_overrides\<lparr>raw_cover_mode := Some ''fast''\<rparr>)
       = Inl (InvalidChoice ''fast'' [''set'', ''count'', ''atomic''])"
  using coverage_mode_validation [of no_overrides "''fast''"]
  by simp

text \<open>
  C7. Constructing the configuration with no option overridden succeeds, with coverage
  mode SET, coverage HTML on, skip off, the three force flags off and no include
  patterns (and no arguments, and the default template).
\<close>

theorem default_construction:
  "construct no_overrides =
     Inr \<lparr>args = [],
          coverage_mode = SET,
          coverage_output_dir_option = ''{distdir}/coverage/go/{import_path_escaped}'',
          coverage_html = True,
          coverage_include_patterns = [],
          skip = False,
          force_race = False,
          force_msan = False,
          force_asan = False\<rparr>"
  by (simp add: construct_def no_overrides_def option_value_def default_coverage_output_dir_eq)

text \<open>
  C8 (as amended). A string with neither \<open>{\<close> nor \<open>}\<close> expands to itself under every
  mapping, so expanding it again changes nothing; as a template it gives the path of that
  very string.
\<close>

theorem expansion_fixes_brace_free_strings:
  assumes "CHR ''{'' \<notin> set s" and "CHR ''}'' \<notin> set s"
  shows "str_format s kwargs = Inr s
         \<and> coverage_output_dir (self\<lparr>coverage_output_dir_option := s\<rparr>) distdir import_path
           = Inr (PurePath_of [s])"
  using assms by (simp add: coverage_output_dir_def str_format_no_braces)

theorem expansion_fixes_brace_free_strings_witness:
  "CHR ''{'' \<notin> set ''dist/coverage/go/example.com_foo_bar''
   \<and> CHR ''}'' \<notin> set ''dist/coverage/go/example.com_foo_bar''
   \<and> str_format ''dist/coverage/go/example.com_foo_bar''
        [(''distdir'', ''dist''), (''import_path_escaped'', ''example.com_foo_bar'')]
      = Inr ''dist/coverage/go/example.com_foo_bar''"
  using expansion_fixes_brace_free_strings
    [of "''dist/coverage/go/example.com_foo_bar''"
        "[(''distdir'', ''dist''), (''import_path_escaped'', ''example.com_foo_bar'')]"]
  by simp

theorem expansion_changes_doubled_brace:
  "str_format ''{distdir}/a}}}}b'' [(''distdir'', ''d''), (''import_path_escaped'', ''p'')]
     = Inr ''d/a}}b''
   \<and> str_format ''d/a}}b'' [(''distdir'', ''d''), (''import_path_escaped'', ''p'')]
     = Inr ''d/a}b''
   \<and> ''d/a}b'' \<noteq> ''d/a}}b''"
  by code_simp



text \<open>
  C10. The import paths \<open>a/b\<close> and \<open>a_b\<close> differ, yet \<open>coverage_output_dir\<close> returns the
  same for both on every instance and distdir; with the default template it is the path
  of \<open><distdir>/coverage/go/a_b\<close>.
\<close>

theorem escaping_collision:
  "''a/b'' \<noteq> ''a_b''
   \<and> coverage_output_dir self distdir ''a/b'' = coverage_output_dir self distdir ''a_b''
   \<and> coverage_output_dir (self\<lparr>coverage_output_dir_option := default_coverage_output_dir\<rparr>)
        distdir ''a/b''
      = Inr (PurePath_of [relpath distdir @ ''/coverage/go/a_b''])
   \<and> coverage_output_dir (self\<lparr>coverage_output_dir_option := default_coverage_output_dir\<rparr>)
        distdir ''a_b''
      = Inr (PurePath_of [relpath distdir @ ''/coverage/go/a_b''])"
  by (simp add: coverage_output_dir_default) (simp add: coverage_output_dir_def str_replace_slash)

end
